theory Spec2Isabelle
  imports Main "HOL-Library.Word"
begin

section \<open>The life-insurance policy registry (src/index.ts)\<close>

subsection \<open>Values\<close>

text \<open>
  \<open>nat64\<close> is Candid's unsigned 64-bit integer. A JavaScript \<open>number\<close> is an IEEE-754
  double; the registry stores and copies it and never computes with it, so it is carried
  by its 64-bit pattern. A \<open>Principal\<close> is an object of azle's class \<open>Principal\<close>,
  identified here by its textual form.
\<close>

type_synonym nat64 = "64 word"

datatype number = Float64 "64 word"

datatype Principal = Principal string

text \<open>
  azle's \<open>Result\<close> with its two constructors; every failure of the registry is an \<open>Err\<close>
  carrying a text message.
\<close>

datatype ('ok, 'err) Result = Ok 'ok | Err 'err

subsection \<open>The two record types\<close>

text \<open>
  \<open>LifeInsurancePolicyPayload\<close> is the object received by create and update. It carries
  the six properties its type declares and no other (the argument is decoded against that
  type), so a payload never holds an \<open>id\<close>, a \<open>createdAt\<close> or an \<open>updatedAt\<close>. The code
  tests \<open>field in payload\<close> for each of the six, so each is optional in the model:
  \<open>None\<close> is an absent property.
  \<open>LifeInsurancePolicy\<close> is built by object spread from a payload and therefore extends
  it with \<open>id\<close>, \<open>createdAt\<close> and \<open>updatedAt\<close> (azle's \<open>Opt\<close>, always present). The
  field \<open>id\<close> is written \<open>id'\<close>, since \<open>id\<close> is HOL's identity function.
\<close>

record LifeInsurancePolicyPayload =
  policyHolder :: "Principal option"
  coverageAmount :: "number option"
  premiumAmount :: "number option"
  policyStartDate :: "nat64 option"
  policyEndDate :: "nat64 option"
  isClaimed :: "bool option"

record LifeInsurancePolicy = LifeInsurancePolicyPayload +
  id' :: string
  createdAt :: nat64
  updatedAt :: "nat64 option"

text \<open>
  The argument \<open>payload\<close> as a JavaScript value: either an object, or a value that the guard
  \<open>!payload || typeof payload !== "object"\<close> rejects (null, undefined, a primitive).
\<close>

datatype payload_value = NotAnObject | Object LifeInsurancePolicyPayload

subsection \<open>JavaScript truthiness and typeof, at the types the guards use\<close>

definition truthy_string :: "string \<Rightarrow> bool" where
  "truthy_string s = (s \<noteq> [])"

definition typeof_string :: "string \<Rightarrow> string" where
  "typeof_string s = ''string''"

text \<open>\<open>ic.caller()\<close> returns a \<open>Principal\<close>: an object, hence truthy and of typeof "object".\<close>

definition truthy_Principal :: "Principal \<Rightarrow> bool" where
  "truthy_Principal p = True"

definition typeof_Principal :: "Principal \<Rightarrow> string" where
  "typeof_Principal p = ''object''"

text \<open>\<open>policy.isClaimed\<close> in a condition: an absent property reads as undefined, which is falsy.\<close>

definition truthy_bool :: "bool option \<Rightarrow> bool" where
  "truthy_bool b = (b = Some True)"

subsection \<open>The store\<close>

text \<open>
  Modelled from the spec: \<open>StableBTreeMap\<close> is azle's, not this repository's. The spec's
  PolicyStore is a key-value container with insert (insert or overwrite), get, remove and
  list-all, the order of list-all being left open. It is an association list with at most
  one entry per key; \<open>store_insert\<close> overwrites in place and appends a new key.
\<close>

type_synonym store = "(string \<times> LifeInsurancePolicy) list"

definition insurancePolicyStorage :: store where
  "insurancePolicyStorage = []"

fun store_get :: "store \<Rightarrow> string \<Rightarrow> LifeInsurancePolicy option" where
  "store_get [] k = None"
| "store_get ((k', v) # rest) k = (if k' = k then Some v else store_get rest k)"

fun store_insert :: "string \<Rightarrow> LifeInsurancePolicy \<Rightarrow> store \<Rightarrow> store" where
  "store_insert k v [] = [(k, v)]"
| "store_insert k v ((k', v') # rest) =
     (if k' = k then (k, v) # rest else (k', v') # store_insert k v rest)"

fun store_remove :: "string \<Rightarrow> store \<Rightarrow> store" where
  "store_remove k [] = []"
| "store_remove k ((k', v) # rest) =
     (if k' = k then store_remove k rest else (k', v) # store_remove k rest)"

definition store_values :: "store \<Rightarrow> LifeInsurancePolicy list" where
  "store_values st = map snd st"

subsection \<open>Messages\<close>

definition invalid_id_msg :: string where
  "invalid_id_msg = ''Invalid ID format.''"

definition not_found_msg :: "string \<Rightarrow> string" where
  "not_found_msg i = ''Insurance Policy with ID='' @ i @ '' not found.''"

definition missing_field_msg :: "string \<Rightarrow> string" where
  "missing_field_msg field = ''Missing required field: '' @ field @ ''.''"

definition already_filed_msg :: "string \<Rightarrow> string" where
  "already_filed_msg i = ''Claim for Insurance Policy with ID='' @ i @ '' has already been filed.''"

subsection \<open>Validation of a payload\<close>

definition requiredFields :: "string list" where
  "requiredFields = [''policyHolder'', ''coverageAmount'', ''premiumAmount'',
                     ''policyStartDate'', ''policyEndDate'', ''isClaimed'']"

text \<open>\<open>field in payload\<close>: the payload object has the property.\<close>

definition field_in :: "string \<Rightarrow> LifeInsurancePolicyPayload \<Rightarrow> bool" where
  "field_in field payload =
     (if field = ''policyHolder'' then policyHolder payload \<noteq> None
      else if field = ''coverageAmount'' then coverageAmount payload \<noteq> None
      else if field = ''premiumAmount'' then premiumAmount payload \<noteq> None
      else if field = ''policyStartDate'' then policyStartDate payload \<noteq> None
      else if field = ''policyEndDate'' then policyEndDate payload \<noteq> None
      else if field = ''isClaimed'' then isClaimed payload \<noteq> None
      else False)"

text \<open>
  The loop \<open>for (const field of requiredFields) if (!(field in payload)) return Err(...)\<close>:
  the message of the first missing field, or \<open>None\<close> when the loop runs to its end.
\<close>

fun check_required :: "string list \<Rightarrow> LifeInsurancePolicyPayload \<Rightarrow> string option" where
  "check_required [] payload = None"
| "check_required (field # rest) payload =
     (if \<not> field_in field payload then Some (missing_field_msg field)
      else check_required rest payload)"

subsection \<open>Object spread\<close>

text \<open>
  \<open>{...a, ...b}\<close> takes a property from \<open>b\<close> where \<open>b\<close> has it and from \<open>a\<close> otherwise.
\<close>

definition spread :: "'a option \<Rightarrow> 'a option \<Rightarrow> 'a option" where
  "spread a b = (case b of None \<Rightarrow> a | Some v \<Rightarrow> Some v)"

subsection \<open>The six operations\<close>

text \<open>
  Each operation takes the values it reads from its environment (\<open>uuidv4()\<close>, \<open>ic.time()\<close>,
  \<open>ic.caller()\<close>) and the store, and returns its result with the store it leaves.
  The filter of the listing, \<open>policy.policyHolder === currentUserId\<close>, is written as
  equality of the two principals; it stands after the guard on the caller, which no
  \<open>Principal\<close> passes, so no result of the listing depends on how \<open>===\<close> is read.
\<close>

definition createInsurancePolicy ::
  "string \<Rightarrow> nat64 \<Rightarrow> payload_value \<Rightarrow> store \<Rightarrow> (LifeInsurancePolicy, string) Result \<times> store" where
  "createInsurancePolicy uuid now payload st =
     (case payload of
        NotAnObject \<Rightarrow> (Err ''Invalid payload for creating an insurance policy.'', st)
      | Object p \<Rightarrow>
          (case check_required requiredFields p of
             Some msg \<Rightarrow> (Err msg, st)
           | None \<Rightarrow>
               let insurancePolicy =
                     \<lparr> policyHolder = policyHolder p,
                       coverageAmount = coverageAmount p,
                       premiumAmount = premiumAmount p,
                       policyStartDate = policyStartDate p,
                       policyEndDate = policyEndDate p,
                       isClaimed = isClaimed p,
                       id' = uuid,
                       createdAt = now,
                       updatedAt = None \<rparr>
               in (Ok insurancePolicy, store_insert (id' insurancePolicy) insurancePolicy st)))"

definition getInsurancePolicy ::
  "string \<Rightarrow> store \<Rightarrow> (LifeInsurancePolicy, string) Result" where
  "getInsurancePolicy i st =
     (if \<not> truthy_string i \<or> typeof_string i \<noteq> ''string'' then Err invalid_id_msg
      else case store_get st i of
             Some policy \<Rightarrow> Ok policy
           | None \<Rightarrow> Err (not_found_msg i))"

definition getAllInsurancePolicies ::
  "Principal \<Rightarrow> store \<Rightarrow> (LifeInsurancePolicy list, string) Result" where
  "getAllInsurancePolicies caller st =
     (let currentUserId = caller in
      if \<not> truthy_Principal currentUserId \<or> typeof_Principal currentUserId \<noteq> ''string''
      then Err ''Invalid current user ID.''
      else Ok (filter (\<lambda>policy. policyHolder policy = Some currentUserId) (store_values st)))"

definition updateInsurancePolicy ::
  "nat64 \<Rightarrow> string \<Rightarrow> payload_value \<Rightarrow> store \<Rightarrow> (LifeInsurancePolicy, string) Result \<times> store" where
  "updateInsurancePolicy now i payload st =
     (if \<not> truthy_string i \<or> typeof_string i \<noteq> ''string'' then (Err invalid_id_msg, st)
      else case payload of
        NotAnObject \<Rightarrow> (Err ''Invalid payload for updating an insurance policy.'', st)
      | Object p \<Rightarrow>
          (case check_required requiredFields p of
             Some msg \<Rightarrow> (Err msg, st)
           | None \<Rightarrow>
               (case store_get st i of
                  Some existingPolicy \<Rightarrow>
                    let updatedPolicy = existingPolicy
                          \<lparr> policyHolder := spread (policyHolder existingPolicy) (policyHolder p),
                            coverageAmount := spread (coverageAmount existingPolicy) (coverageAmount p),
                            premiumAmount := spread (premiumAmount existingPolicy) (premiumAmount p),
                            policyStartDate := spread (policyStartDate existingPolicy) (policyStartDate p),
                            policyEndDate := spread (policyEndDate existingPolicy) (policyEndDate p),
                            isClaimed := spread (isClaimed existingPolicy) (isClaimed p),
                            updatedAt := Some now \<rparr>
                    in (Ok updatedPolicy, store_insert (id' updatedPolicy) updatedPolicy st)
                | None \<Rightarrow> (Err (not_found_msg i), st))))"

definition deleteInsurancePolicy ::
  "string \<Rightarrow> store \<Rightarrow> (LifeInsurancePolicy, string) Result \<times> store" where
  "deleteInsurancePolicy i st =
     (if \<not> truthy_string i \<or> typeof_string i \<noteq> ''string'' then (Err invalid_id_msg, st)
      else case store_get st i of
             Some existingPolicy \<Rightarrow> (Ok existingPolicy, store_remove i st)
           | None \<Rightarrow> (Err (not_found_msg i), st))"

definition fileClaim ::
  "nat64 \<Rightarrow> string \<Rightarrow> store \<Rightarrow> (LifeInsurancePolicy, string) Result \<times> store" where
  "fileClaim now i st =
     (if \<not> truthy_string i \<or> typeof_string i \<noteq> ''string'' then (Err invalid_id_msg, st)
      else case store_get st i of
             Some policy \<Rightarrow>
               if truthy_bool (isClaimed policy) then (Err (already_filed_msg i), st)
               else
                 let updatedPolicy = policy \<lparr> isClaimed := Some True, updatedAt := Some now \<rparr>
                 in (Ok updatedPolicy, store_insert (id' updatedPolicy) updatedPolicy st)
           | None \<Rightarrow> (Err (not_found_msg i), st))"

subsection \<open>Calls and runs\<close>

text \<open>
  One call to the canister: what the host answers during the call (\<open>ic.caller()\<close>,
  \<open>ic.time()\<close>, \<open>uuidv4()\<close>) and the method with its arguments.
\<close>

record env =
  ic_caller :: Principal
  ic_time :: nat64
  uuidv4 :: string

datatype operation =
    CreateInsurancePolicy payload_value
  | GetInsurancePolicy string
  | GetAllInsurancePolicies
  | UpdateInsurancePolicy string payload_value
  | DeleteInsurancePolicy string
  | FileClaim string

datatype response =
    Policy "(LifeInsurancePolicy, string) Result"
  | Policies "(LifeInsurancePolicy list, string) Result"

fun step :: "env \<Rightarrow> operation \<Rightarrow> store \<Rightarrow> response \<times> store" where
  "step e (CreateInsurancePolicy payload) st =
     (let (r, st') = createInsurancePolicy (uuidv4 e) (ic_time e) payload st in (Policy r, st'))"
| "step e (GetInsurancePolicy i) st = (Policy (getInsurancePolicy i st), st)"
| "step e GetAllInsurancePolicies st = (Policies (getAllInsurancePolicies (ic_caller e) st), st)"
| "step e (UpdateInsurancePolicy i payload) st =
     (let (r, st') = updateInsurancePolicy (ic_time e) i payload st in (Policy r, st'))"
| "step e (DeleteInsurancePolicy i) st =
     (let (r, st') = deleteInsurancePolicy i st in (Policy r, st'))"
| "step e (FileClaim i) st =
     (let (r, st') = fileClaim (ic_time e) i st in (Policy r, st'))"

fun run :: "(env \<times> operation) list \<Rightarrow> store \<Rightarrow> store" where
  "run [] st = st"
| "run ((e, op) # calls) st = run calls (snd (step e op st))"

subsection \<open>Invariants of the store\<close>

text \<open>Every entry is stored under its record's own \<open>id\<close>.\<close>

definition key_inv :: "store \<Rightarrow> bool" where
  "key_inv st = (\<forall>(k, r) \<in> set st. id' r = k)"

text \<open>No stored timestamp is later than \<open>t\<close>.\<close>

definition times_le :: "nat64 \<Rightarrow> store \<Rightarrow> bool" where
  "times_le t st =
     (\<forall>(k, r) \<in> set st.
        createdAt r \<le> t \<and> (case updatedAt r of None \<Rightarrow> True | Some u \<Rightarrow> u \<le> t))"

text \<open>
  A call that cannot take the claimed flag of the record stored under \<open>k\<close> away: it is
  not an update of \<open>k\<close> whose payload carries \<open>isClaimed = false\<close>, and it is not a
  create whose generated identifier is \<open>k\<close> again.
\<close>

definition keeps_claim :: "string \<Rightarrow> env \<times> operation \<Rightarrow> bool" where
  "keeps_claim k c =
     (case snd c of
        UpdateInsurancePolicy i (Object p) \<Rightarrow> i = k \<longrightarrow> isClaimed p \<noteq> Some False
      | CreateInsurancePolicy payload \<Rightarrow> uuidv4 (fst c) \<noteq> k
      | _ \<Rightarrow> True)"

subsection \<open>A concrete scenario\<close>

text \<open>
  The scenario of the specification: Alice's policy with coverage 100000, premium 500,
  start 1000 and end 2000, created at time 10 under the identifier \<open>policy-1\<close> and
  claimed at time 20.
\<close>

definition alice :: Principal where
  "alice = Principal ''alice''"

definition bob :: Principal where
  "bob = Principal ''bob''"

definition payload_alice :: LifeInsurancePolicyPayload where
  "payload_alice =
     \<lparr> policyHolder = Some alice,
       coverageAmount = Some (Float64 0x40F86A0000000000),
       premiumAmount = Some (Float64 0x407F400000000000),
       policyStartDate = Some 1000,
       policyEndDate = Some 2000,
       isClaimed = Some False \<rparr>"

definition payload_incomplete :: LifeInsurancePolicyPayload where
  "payload_incomplete = payload_alice \<lparr> premiumAmount := None, isClaimed := None \<rparr>"

definition policy_1 :: LifeInsurancePolicy where
  "policy_1 =
     \<lparr> policyHolder = Some alice,
       coverageAmount = Some (Float64 0x40F86A0000000000),
       premiumAmount = Some (Float64 0x407F400000000000),
       policyStartDate = Some 1000,
       policyEndDate = Some 2000,
       isClaimed = Some False,
       id' = ''policy-1'',
       createdAt = 10,
       updatedAt = None \<rparr>"

definition call_create :: "env \<times> operation" where
  "call_create =
     (\<lparr> ic_caller = alice, ic_time = 10, uuidv4 = ''policy-1'' \<rparr>,
      CreateInsurancePolicy (Object payload_alice))"

definition call_claim :: "env \<times> operation" where
  "call_claim =
     (\<lparr> ic_caller = alice, ic_time = 20, uuidv4 = ''unused'' \<rparr>, FileClaim ''policy-1'')"

section \<open>Properties of the store and of validation\<close>

lemma store_get_insert:
  "store_get (store_insert k v st) k' = (if k' = k then Some v else store_get st k')"
  by (induction st) auto

lemma store_get_remove:
  "store_get (store_remove k st) k' = (if k' = k then None else store_get st k')"
  by (induction st) auto

lemma store_get_mem: "store_get st k = Some r \<Longrightarrow> (k, r) \<in> set st"
  by (induction st) (auto split: if_splits)

lemma store_get_None: "store_get st k = None \<longleftrightarrow> k \<notin> fst ` set st"
  by (induction st) (auto split: if_splits)

lemma set_store_insert: "set (store_insert k v st) \<subseteq> insert (k, v) (set st)"
  by (induction st) (auto split: if_splits)

lemma set_store_remove: "set (store_remove k st) \<subseteq> set st"
  by (induction st) (auto split: if_splits)

lemma keys_store_insert:
  "map fst (store_insert k v st) = (if store_get st k = None then map fst st @ [k] else map fst st)"
  by (induction st) (auto split: if_splits)

lemma length_store_insert:
  "length (store_insert k v st) = (if store_get st k = None then Suc (length st) else length st)"
  by (induction st) (auto split: if_splits)

lemma keys_store_remove: "map fst (store_remove k st) = filter (\<lambda>k'. k' \<noteq> k) (map fst st)"
  by (induction st) auto

lemma distinct_store_insert: "distinct (map fst st) \<Longrightarrow> distinct (map fst (store_insert k v st))"
  by (simp add: keys_store_insert store_get_None)

lemma distinct_store_remove: "distinct (map fst st) \<Longrightarrow> distinct (map fst (store_remove k st))"
  by (simp add: keys_store_remove)

lemma check_required_None:
  "check_required requiredFields p = None \<longleftrightarrow>
     policyHolder p \<noteq> None \<and> coverageAmount p \<noteq> None \<and> premiumAmount p \<noteq> None \<and>
     policyStartDate p \<noteq> None \<and> policyEndDate p \<noteq> None \<and> isClaimed p \<noteq> None"
  by (auto simp: requiredFields_def field_in_def)

lemma createInsurancePolicy_entry:
  assumes "(k, r) \<in> set (snd (createInsurancePolicy uuid now payload st))"
  shows "(k, r) \<in> set st \<or>
         (k = uuid \<and> id' r = uuid \<and> createdAt r = now \<and> updatedAt r = None)"
  using assms
  by (auto simp: createInsurancePolicy_def Let_def
           split: payload_value.splits option.splits
           dest!: set_store_insert [THEN subsetD])

lemma updateInsurancePolicy_entry:
  assumes "(k, r) \<in> set (snd (updateInsurancePolicy now i payload st))"
  shows "(k, r) \<in> set st \<or>
         (\<exists>r0. (i, r0) \<in> set st \<and> k = id' r0 \<and> id' r = id' r0 \<and>
               createdAt r = createdAt r0 \<and> updatedAt r = Some now)"
  using assms
  by (auto simp: updateInsurancePolicy_def Let_def
           split: payload_value.splits option.splits if_splits
           dest!: set_store_insert [THEN subsetD] store_get_mem)

lemma fileClaim_entry:
  assumes "(k, r) \<in> set (snd (fileClaim now i st))"
  shows "(k, r) \<in> set st \<or>
         (\<exists>r0. (i, r0) \<in> set st \<and> k = id' r0 \<and> id' r = id' r0 \<and>
               createdAt r = createdAt r0 \<and> updatedAt r = Some now)"
  using assms
  by (auto simp: fileClaim_def Let_def
           split: option.splits if_splits
           dest!: set_store_insert [THEN subsetD] store_get_mem)

lemma deleteInsurancePolicy_entry:
  assumes "(k, r) \<in> set (snd (deleteInsurancePolicy i st))"
  shows "(k, r) \<in> set st"
  using assms
  by (auto simp: deleteInsurancePolicy_def
           split: option.splits if_splits
           dest!: set_store_remove [THEN subsetD])

lemma step_entry:
  assumes "(k, r) \<in> set (snd (step e op st))"
  shows "(k, r) \<in> set st \<or>
         (k = uuidv4 e \<and> id' r = uuidv4 e \<and> createdAt r = ic_time e \<and> updatedAt r = None) \<or>
         (\<exists>k0 r0. (k0, r0) \<in> set st \<and> k = id' r0 \<and> id' r = id' r0 \<and>
                  createdAt r = createdAt r0 \<and> updatedAt r = Some (ic_time e))"
proof (cases op)
  case (CreateInsurancePolicy payload)
  then show ?thesis
    using assms createInsurancePolicy_entry [of k r "uuidv4 e" "ic_time e" payload st]
    by (auto simp: split_def Let_def)
next
  case (GetInsurancePolicy i)
  then show ?thesis using assms by simp
next
  case GetAllInsurancePolicies
  then show ?thesis using assms by simp
next
  case (UpdateInsurancePolicy i payload)
  then show ?thesis
    using assms updateInsurancePolicy_entry [of k r "ic_time e" i payload st]
    by (auto simp: split_def Let_def)
next
  case (DeleteInsurancePolicy i)
  then show ?thesis
    using assms deleteInsurancePolicy_entry [of k r i st]
    by (auto simp: split_def Let_def)
next
  case (FileClaim i)
  then show ?thesis
    using assms fileClaim_entry [of k r "ic_time e" i st]
    by (auto simp: split_def Let_def)
qed

lemma step_key_inv: "key_inv st \<Longrightarrow> key_inv (snd (step e op st))"
  unfolding key_inv_def using step_entry by fastforce

lemma run_key_inv: "key_inv st \<Longrightarrow> key_inv (run calls st)"
  by (induction calls arbitrary: st) (auto simp: step_key_inv)


lemma check_required_iff: "check_required fs p = None \<longleftrightarrow> (\<forall>f \<in> set fs. field_in f p)"
  by (induction fs) auto

lemma check_required_first_missing:
  assumes "\<exists>f \<in> set fs. \<not> field_in f p"
  shows "\<exists>before g after.
           fs = before @ g # after \<and> (\<forall>h \<in> set before. field_in h p) \<and> \<not> field_in g p \<and>
           check_required fs p = Some (missing_field_msg g)"
  using assms
proof (induction fs)
  case Nil
  then show ?case by simp
next
  case (Cons x xs)
  show ?case
  proof (cases "field_in x p")
    case False
    have "x # xs = [] @ x # xs" by simp
    moreover have "\<forall>h \<in> set []. field_in h p" by simp
    moreover have "check_required (x # xs) p = Some (missing_field_msg x)"
      using False by simp
    ultimately show ?thesis using False by blast
  next
    case True
    then have "\<exists>f \<in> set xs. \<not> field_in f p" using Cons.prems by auto
    then obtain before g after where split: "xs = before @ g # after"
        and present: "\<forall>h \<in> set before. field_in h p" and missing: "\<not> field_in g p"
        and check: "check_required xs p = Some (missing_field_msg g)"
      using Cons.IH by blast
    have "x # xs = (x # before) @ g # after" using split by simp
    moreover have "\<forall>h \<in> set (x # before). field_in h p" using True present by simp
    moreover have "check_required (x # xs) p = Some (missing_field_msg g)"
      using True check by simp
    ultimately show ?thesis using missing by blast
  qed
qed

lemma empty_id_rejected:
  "getInsurancePolicy [] st = Err ''Invalid ID format.''"
  "updateInsurancePolicy now [] payload st = (Err ''Invalid ID format.'', st)"
  "deleteInsurancePolicy [] st = (Err ''Invalid ID format.'', st)"
  "fileClaim now [] st = (Err ''Invalid ID format.'', st)"
  by (simp_all add: getInsurancePolicy_def updateInsurancePolicy_def deleteInsurancePolicy_def
                    fileClaim_def truthy_string_def invalid_id_msg_def)

lemma spread_Some: "b \<noteq> None \<Longrightarrow> spread a b = b"
  by (auto simp: spread_def)

lemma getInsurancePolicy_eq:
  "i \<noteq> [] \<Longrightarrow> getInsurancePolicy i st =
     (case store_get st i of Some policy \<Rightarrow> Ok policy | None \<Rightarrow> Err (not_found_msg i))"
  by (simp add: getInsurancePolicy_def truthy_string_def typeof_string_def)

lemma createInsurancePolicy_valid:
  assumes "check_required requiredFields p = None"
  shows "createInsurancePolicy uuid now (Object p) st =
           (Ok \<lparr> policyHolder = policyHolder p, coverageAmount = coverageAmount p,
                 premiumAmount = premiumAmount p, policyStartDate = policyStartDate p,
                 policyEndDate = policyEndDate p, isClaimed = isClaimed p,
                 id' = uuid, createdAt = now, updatedAt = None \<rparr>,
            store_insert uuid
               \<lparr> policyHolder = policyHolder p, coverageAmount = coverageAmount p,
                 premiumAmount = premiumAmount p, policyStartDate = policyStartDate p,
                 policyEndDate = policyEndDate p, isClaimed = isClaimed p,
                 id' = uuid, createdAt = now, updatedAt = None \<rparr> st)"
  using assms by (simp add: createInsurancePolicy_def Let_def)

lemma createInsurancePolicy_invalid:
  assumes "check_required requiredFields p = Some msg"
  shows "createInsurancePolicy uuid now (Object p) st = (Err msg, st)"
  using assms by (simp add: createInsurancePolicy_def)

lemma updateInsurancePolicy_valid:
  assumes "i \<noteq> []" and "check_required requiredFields p = None" and "store_get st i = Some r"
  shows "updateInsurancePolicy now i (Object p) st =
           (Ok (r\<lparr> policyHolder := policyHolder p, coverageAmount := coverageAmount p,
                   premiumAmount := premiumAmount p, policyStartDate := policyStartDate p,
                   policyEndDate := policyEndDate p, isClaimed := isClaimed p,
                   updatedAt := Some now \<rparr>),
            store_insert (id' r)
               (r\<lparr> policyHolder := policyHolder p, coverageAmount := coverageAmount p,
                   premiumAmount := premiumAmount p, policyStartDate := policyStartDate p,
                   policyEndDate := policyEndDate p, isClaimed := isClaimed p,
                   updatedAt := Some now \<rparr>) st)"
proof -
  from assms(2) have "policyHolder p \<noteq> None" "coverageAmount p \<noteq> None" "premiumAmount p \<noteq> None"
    "policyStartDate p \<noteq> None" "policyEndDate p \<noteq> None" "isClaimed p \<noteq> None"
    by (simp_all add: check_required_None)
  then show ?thesis
    using assms
    by (simp add: updateInsurancePolicy_def Let_def truthy_string_def typeof_string_def spread_Some)
qed

lemma updateInsurancePolicy_invalid:
  assumes "i \<noteq> []" and "check_required requiredFields p = Some msg"
  shows "updateInsurancePolicy now i (Object p) st = (Err msg, st)"
  using assms by (simp add: updateInsurancePolicy_def truthy_string_def typeof_string_def)

lemma updateInsurancePolicy_absent:
  assumes "i \<noteq> []" and "check_required requiredFields p = None" and "store_get st i = None"
  shows "updateInsurancePolicy now i (Object p) st = (Err (not_found_msg i), st)"
  using assms by (simp add: updateInsurancePolicy_def truthy_string_def typeof_string_def)

lemma deleteInsurancePolicy_eq:
  "i \<noteq> [] \<Longrightarrow> deleteInsurancePolicy i st =
     (case store_get st i of Some existingPolicy \<Rightarrow> (Ok existingPolicy, store_remove i st)
                           | None \<Rightarrow> (Err (not_found_msg i), st))"
  by (simp add: deleteInsurancePolicy_def truthy_string_def typeof_string_def)

lemma fileClaim_claimed:
  "i \<noteq> [] \<Longrightarrow> store_get st i = Some r \<Longrightarrow> isClaimed r = Some True \<Longrightarrow>
   fileClaim now i st = (Err (already_filed_msg i), st)"
  by (simp add: fileClaim_def truthy_string_def typeof_string_def truthy_bool_def)

lemma fileClaim_unclaimed:
  "i \<noteq> [] \<Longrightarrow> store_get st i = Some r \<Longrightarrow> isClaimed r \<noteq> Some True \<Longrightarrow>
   fileClaim now i st =
     (Ok (r\<lparr> isClaimed := Some True, updatedAt := Some now \<rparr>),
      store_insert (id' r) (r\<lparr> isClaimed := Some True, updatedAt := Some now \<rparr>) st)"
  by (simp add: fileClaim_def truthy_string_def typeof_string_def truthy_bool_def Let_def)

lemma fileClaim_absent:
  "i \<noteq> [] \<Longrightarrow> store_get st i = None \<Longrightarrow> fileClaim now i st = (Err (not_found_msg i), st)"
  by (simp add: fileClaim_def truthy_string_def typeof_string_def)

lemma key_inv_get: "key_inv st \<Longrightarrow> store_get st k = Some r \<Longrightarrow> id' r = k"
  by (auto simp: key_inv_def dest!: store_get_mem)

lemma key_inv_empty: "key_inv insurancePolicyStorage"
  by (simp add: key_inv_def insurancePolicyStorage_def)

lemma step_keys_nonempty:
  assumes "key_inv st" and "\<forall>(k, r) \<in> set st. k \<noteq> []" and "uuidv4 e \<noteq> []"
  shows "\<forall>(k, r) \<in> set (snd (step e op st)). k \<noteq> []"
  using assms step_entry [of _ _ e op st] unfolding key_inv_def by fastforce

lemma run_keys_nonempty:
  assumes "key_inv st" and "\<forall>(k, r) \<in> set st. k \<noteq> []" and "\<forall>c \<in> set calls. uuidv4 (fst c) \<noteq> []"
  shows "\<forall>(k, r) \<in> set (run calls st). k \<noteq> []"
  using assms
proof (induction calls arbitrary: st)
  case Nil
  then show ?case by simp
next
  case (Cons c calls)
  obtain e op where c: "c = (e, op)" by (cases c)
  have "key_inv (snd (step e op st))" using Cons.prems(1) by (rule step_key_inv)
  moreover have "\<forall>(k, r) \<in> set (snd (step e op st)). k \<noteq> []"
    using Cons.prems c by (intro step_keys_nonempty) auto
  ultimately show ?case using Cons.IH [of "snd (step e op st)"] Cons.prems(3) c by simp
qed

lemma reachable_key_nonempty:
  assumes "\<forall>c \<in> set calls. uuidv4 (fst c) \<noteq> []"
    and "store_get (run calls insurancePolicyStorage) i = Some r"
  shows "i \<noteq> []"
proof -
  have "\<forall>(k, r) \<in> set (run calls insurancePolicyStorage). k \<noteq> []"
    using assms(1) by (intro run_keys_nonempty key_inv_empty) (simp_all add: insurancePolicyStorage_def)
  then show ?thesis using store_get_mem [OF assms(2)] by auto
qed

lemma step_times_le:
  assumes "times_le t st" and "ic_time e \<le> t"
  shows "times_le t (snd (step e op st))"
  unfolding times_le_def
proof (intro ballI, clarify)
  fix k r
  assume mem: "(k, r) \<in> set (snd (step e op st))"
  have old: "createdAt r0 \<le> t \<and> (case updatedAt r0 of None \<Rightarrow> True | Some u \<Rightarrow> u \<le> t)"
    if "(k0, r0) \<in> set st" for k0 r0
    using assms(1) that unfolding times_le_def by auto
  from step_entry [OF mem]
  show "createdAt r \<le> t \<and> (case updatedAt r of None \<Rightarrow> True | Some u \<Rightarrow> u \<le> t)"
  proof (elim disjE exE conjE)
    assume "(k, r) \<in> set st"
    then show ?thesis by (rule old)
  next
    assume "createdAt r = ic_time e" "updatedAt r = None"
    then show ?thesis using assms(2) by simp
  next
    fix k0 r0
    assume "(k0, r0) \<in> set st" "createdAt r = createdAt r0" "updatedAt r = Some (ic_time e)"
    then show ?thesis using old [of k0 r0] assms(2) by simp
  qed
qed

lemma run_times_le:
  assumes "times_le t st" and "\<forall>c \<in> set calls. ic_time (fst c) \<le> t"
  shows "times_le t (run calls st)"
  using assms
  by (induction calls arbitrary: st) (auto simp: step_times_le)

lemma createInsurancePolicy_get_other:
  "k \<noteq> uuid \<Longrightarrow> store_get (snd (createInsurancePolicy uuid now payload st)) k = store_get st k"
  by (auto simp: createInsurancePolicy_def Let_def store_get_insert
           split: payload_value.splits option.splits)

lemma updateInsurancePolicy_get:
  assumes "key_inv st" and "store_get (snd (updateInsurancePolicy now i payload st)) k = Some r'"
  shows "store_get st k = Some r' \<or>
         (k = i \<and> (\<exists>p. payload = Object p \<and> isClaimed p \<noteq> None \<and> isClaimed r' = isClaimed p))"
proof (cases "snd (updateInsurancePolicy now i payload st) = st")
  case True
  then show ?thesis using assms(2) by simp
next
  case False
  then obtain p r0 where p: "payload = Object p" "check_required requiredFields p = None"
      "store_get st i = Some r0" "i \<noteq> []"
    by (auto simp: updateInsurancePolicy_def truthy_string_def
             split: payload_value.splits option.splits if_splits)
  have id: "id' r0 = i" using assms(1) p(3) by (rule key_inv_get)
  have claimed: "isClaimed p \<noteq> None" using p(2) by (simp add: check_required_None)
  show ?thesis
    using assms(2) p id claimed updateInsurancePolicy_valid [OF p(4) p(2) p(3), of now]
    by (auto simp: store_get_insert split: if_splits)
qed

lemma fileClaim_get:
  assumes "key_inv st" and "store_get (snd (fileClaim now i st)) k = Some r'"
  shows "store_get st k = Some r' \<or> (k = i \<and> isClaimed r' = Some True)"
proof (cases "snd (fileClaim now i st) = st")
  case True
  then show ?thesis using assms(2) by simp
next
  case False
  then obtain r0 where r0: "store_get st i = Some r0" "i \<noteq> []" "isClaimed r0 \<noteq> Some True"
    by (auto simp: fileClaim_def truthy_string_def truthy_bool_def
             split: option.splits if_splits)
  have id: "id' r0 = i" using assms(1) r0(1) by (rule key_inv_get)
  show ?thesis
    using assms(2) id fileClaim_unclaimed [OF r0(2) r0(1) r0(3), of now]
    by (auto simp: store_get_insert split: if_splits)
qed

lemma deleteInsurancePolicy_get:
  "store_get (snd (deleteInsurancePolicy i st)) k = Some r' \<Longrightarrow> store_get st k = Some r'"
  by (auto simp: deleteInsurancePolicy_def store_get_remove split: option.splits if_splits)

lemma snd_step:
  "snd (step e (CreateInsurancePolicy payload) st)
     = snd (createInsurancePolicy (uuidv4 e) (ic_time e) payload st)"
  "snd (step e (GetInsurancePolicy i) st) = st"
  "snd (step e GetAllInsurancePolicies st) = st"
  "snd (step e (UpdateInsurancePolicy i payload) st)
     = snd (updateInsurancePolicy (ic_time e) i payload st)"
  "snd (step e (DeleteInsurancePolicy i) st) = snd (deleteInsurancePolicy i st)"
  "snd (step e (FileClaim i) st) = snd (fileClaim (ic_time e) i st)"
  by (simp_all add: split_def Let_def)

lemma step_keeps_claim:
  assumes "key_inv st" and "keeps_claim k (e, op)"
    and "\<forall>r. store_get st k = Some r \<longrightarrow> isClaimed r = Some True"
  shows "\<forall>r. store_get (snd (step e op st)) k = Some r \<longrightarrow> isClaimed r = Some True"
proof (intro allI impI)
  fix r assume get: "store_get (snd (step e op st)) k = Some r"
  show "isClaimed r = Some True"
  proof (cases op)
    case (CreateInsurancePolicy payload)
    then have "uuidv4 e \<noteq> k" using assms(2) by (simp add: keeps_claim_def)
    then have "store_get (snd (step e op st)) k = store_get st k"
      using CreateInsurancePolicy createInsurancePolicy_get_other [of k "uuidv4 e" "ic_time e" payload st]
      by (simp add: snd_step del: step.simps)
    then show ?thesis using get assms(3) by simp
  next
    case (GetInsurancePolicy i)
    then show ?thesis using get assms(3) by simp
  next
    case GetAllInsurancePolicies
    then show ?thesis using get assms(3) by simp
  next
    case (UpdateInsurancePolicy i payload)
    then have "store_get (snd (updateInsurancePolicy (ic_time e) i payload st)) k = Some r"
      using get by (simp add: snd_step del: step.simps)
    then consider "store_get st k = Some r"
      | p where "k = i" "payload = Object p" "isClaimed p \<noteq> None" "isClaimed r = isClaimed p"
      using updateInsurancePolicy_get [OF assms(1)] by blast
    then show ?thesis
    proof cases
      case 1
      then show ?thesis using assms(3) by simp
    next
      case 2
      then have "isClaimed p \<noteq> Some False"
        using assms(2) UpdateInsurancePolicy by (simp add: keeps_claim_def)
      then show ?thesis using 2 by (cases "isClaimed p") auto
    qed
  next
    case (DeleteInsurancePolicy i)
    then have "store_get (snd (deleteInsurancePolicy i st)) k = Some r"
      using get by (simp add: snd_step del: step.simps)
    then show ?thesis using assms(3) deleteInsurancePolicy_get by blast
  next
    case (FileClaim i)
    then have "store_get (snd (fileClaim (ic_time e) i st)) k = Some r"
      using get by (simp add: snd_step del: step.simps)
    then show ?thesis using assms(3) fileClaim_get [OF assms(1)] by blast
  qed
qed

lemma run_keeps_claim:
  assumes "key_inv st" and "\<forall>c \<in> set calls. keeps_claim k c"
    and "\<forall>r. store_get st k = Some r \<longrightarrow> isClaimed r = Some True"
  shows "\<forall>r. store_get (run calls st) k = Some r \<longrightarrow> isClaimed r = Some True"
  using assms
proof (induction calls arbitrary: st)
  case Nil
  then show ?case by simp
next
  case (Cons c calls)
  obtain e op where c: "c = (e, op)" by (cases c)
  have inv: "key_inv (snd (step e op st))" using Cons.prems(1) by (rule step_key_inv)
  have "keeps_claim k (e, op)" using Cons.prems(2) c by simp
  then have claimed: "\<forall>r. store_get (snd (step e op st)) k = Some r \<longrightarrow> isClaimed r = Some True"
    using Cons.prems(1,3) by (intro step_keeps_claim)
  have rest: "\<forall>c \<in> set calls. keeps_claim k c" using Cons.prems(2) by simp
  show ?case using Cons.IH [OF inv rest claimed] c by simp
qed

lemma fst_step_Err_unchanged:
  assumes "fst (step e op st) = Policy (Err msg) \<or> fst (step e op st) = Policies (Err msg)"
  shows "snd (step e op st) = st"
proof (cases op)
  case (CreateInsurancePolicy payload)
  then show ?thesis
    using assms
    by (auto simp: createInsurancePolicy_def Let_def split: payload_value.splits option.splits)
next
  case (GetInsurancePolicy i)
  then show ?thesis by simp
next
  case GetAllInsurancePolicies
  then show ?thesis by simp
next
  case (UpdateInsurancePolicy i payload)
  then show ?thesis
    using assms
    by (auto simp: updateInsurancePolicy_def Let_def
             split: payload_value.splits option.splits if_splits)
next
  case (DeleteInsurancePolicy i)
  then show ?thesis
    using assms by (auto simp: deleteInsurancePolicy_def split: option.splits if_splits)
next
  case (FileClaim i)
  then show ?thesis
    using assms by (auto simp: fileClaim_def Let_def split: option.splits if_splits)
qed

lemmas example_defs =
  alice_def bob_def payload_alice_def payload_incomplete_def policy_1_def call_create_def
  call_claim_def insurancePolicyStorage_def

lemmas eval_defs =
  createInsurancePolicy_def getInsurancePolicy_def getAllInsurancePolicies_def
  updateInsurancePolicy_def deleteInsurancePolicy_def fileClaim_def
  requiredFields_def field_in_def missing_field_msg_def not_found_msg_def
  already_filed_msg_def invalid_id_msg_def truthy_string_def typeof_string_def
  truthy_Principal_def typeof_Principal_def truthy_bool_def spread_def Let_def

lemma run_create: "run [call_create] insurancePolicyStorage = [(''policy-1'', policy_1)]"
  by (simp add: example_defs eval_defs)

lemma run_create_claim:
  "run [call_create, call_claim] insurancePolicyStorage =
     [(''policy-1'', policy_1 \<lparr> isClaimed := Some True, updatedAt := Some 20 \<rparr>)]"
  by (simp add: example_defs eval_defs)

section \<open>The claims\<close>

text \<open>
  C1, as stated, fails: \<open>isClaimed\<close> is one of the six fields of the payload, and a
  successful \<open>updateInsurancePolicy\<close> overwrites it with the payload's value. Alice's
  policy is created, claimed, and then updated with a payload that says
  \<open>isClaimed = false\<close>: the stored record goes from claimed back to not claimed.
\<close>

theorem update_resets_isClaimed:
  "store_get (run [call_create, call_claim] insurancePolicyStorage) ''policy-1''
     = Some (policy_1\<lparr> isClaimed := Some True, updatedAt := Some 20 \<rparr>) \<and>
   isClaimed (policy_1\<lparr> isClaimed := Some True, updatedAt := Some 20 \<rparr>) = Some True \<and>
   updateInsurancePolicy 30 ''policy-1'' (Object payload_alice)
       (run [call_create, call_claim] insurancePolicyStorage)
     = (Ok (policy_1\<lparr> updatedAt := Some 30 \<rparr>),
        [(''policy-1'', policy_1\<lparr> updatedAt := Some 30 \<rparr>)]) \<and>
   store_get [(''policy-1'', policy_1\<lparr> updatedAt := Some 30 \<rparr>)] ''policy-1''
     = Some (policy_1\<lparr> updatedAt := Some 30 \<rparr>) \<and>
   isClaimed (policy_1\<lparr> updatedAt := Some 30 \<rparr>) = Some False"
  by (simp add: run_create_claim) (simp add: example_defs eval_defs)

text \<open>
  C1, amended. In a store reached from the empty one, a record stored under \<open>k\<close> with
  \<open>isClaimed\<close> true still has \<open>isClaimed\<close> true, as long as it is stored under \<open>k\<close>,
  after every sequence of calls of the six operations in which no update of \<open>k\<close> carries
  \<open>isClaimed = false\<close> in its payload and no create generates \<open>k\<close> again. A successful
  \<open>updateInsurancePolicy\<close> sets \<open>isClaimed\<close> to the value its payload carries, and
  \<open>fileClaim\<close> on the claimed record is refused and leaves the store as it is.
\<close>

theorem isClaimed_kept:
  assumes "st = run before insurancePolicyStorage"
    and "store_get st k = Some r" and "isClaimed r = Some True"
    and "\<forall>c \<in> set after. keeps_claim k c"
  shows "(\<forall>r'. store_get (run after st) k = Some r' \<longrightarrow> isClaimed r' = Some True) \<and>
         (k \<noteq> [] \<and> (\<forall>field \<in> set requiredFields. field_in field p) \<longrightarrow>
            (\<exists>r'. updateInsurancePolicy now k (Object p) st = (Ok r', store_insert k r' st) \<and>
                  isClaimed r' = isClaimed p)) \<and>
         (k \<noteq> [] \<longrightarrow> fileClaim now k st = (Err (already_filed_msg k), st))"
proof -
  have inv: "key_inv st" unfolding assms(1) by (rule run_key_inv [OF key_inv_empty])
  have claimed: "\<forall>r'. store_get st k = Some r' \<longrightarrow> isClaimed r' = Some True"
    using assms(2,3) by simp
  have kept: "\<forall>r'. store_get (run after st) k = Some r' \<longrightarrow> isClaimed r' = Some True"
    using inv assms(4) claimed by (rule run_keeps_claim)
  have update: "\<exists>r'. updateInsurancePolicy now k (Object p) st = (Ok r', store_insert k r' st) \<and>
                  isClaimed r' = isClaimed p"
    if nonempty: "k \<noteq> []" and valid: "\<forall>field \<in> set requiredFields. field_in field p"
  proof -
    have check: "check_required requiredFields p = None"
      using valid by (simp add: check_required_iff)
    have id: "id' r = k" using inv assms(2) by (rule key_inv_get)
    show ?thesis
      using updateInsurancePolicy_valid [OF nonempty check assms(2), of now] id by simp
  qed
  have refused: "k \<noteq> [] \<longrightarrow> fileClaim now k st = (Err (already_filed_msg k), st)"
    using assms(2,3) by (simp add: fileClaim_claimed)
  show ?thesis using kept update refused by blast
qed

theorem isClaimed_kept_witness:
  "store_get (run [call_create, call_claim] insurancePolicyStorage) ''policy-1''
     = Some (policy_1\<lparr> isClaimed := Some True, updatedAt := Some 20 \<rparr>) \<and>
   isClaimed (policy_1\<lparr> isClaimed := Some True, updatedAt := Some 20 \<rparr>) = Some True \<and>
   keeps_claim ''policy-1'' call_claim \<and>
   keeps_claim ''policy-1''
     (fst call_claim, UpdateInsurancePolicy ''policy-1'' (Object (payload_alice\<lparr>isClaimed := Some True\<rparr>))) \<and>
   keeps_claim ''policy-1'' (fst call_claim, GetAllInsurancePolicies) \<and>
   \<not> keeps_claim ''policy-1''
     (fst call_claim, UpdateInsurancePolicy ''policy-1'' (Object payload_alice)) \<and>
   store_get
     (run [call_claim,
           (fst call_claim, UpdateInsurancePolicy ''policy-1'' (Object (payload_alice\<lparr>isClaimed := Some True\<rparr>))),
           (fst call_claim, GetAllInsurancePolicies)]
        (run [call_create, call_claim] insurancePolicyStorage)) ''policy-1''
     = Some (policy_1\<lparr> isClaimed := Some True, updatedAt := Some 20 \<rparr>) \<and>
   ''policy-1'' \<noteq> [] \<and> field_in ''isClaimed'' payload_alice \<and>
   updateInsurancePolicy 30 ''policy-1'' (Object payload_alice)
       (run [call_create, call_claim] insurancePolicyStorage)
     = (Ok (policy_1\<lparr> updatedAt := Some 30 \<rparr>),
        [(''policy-1'', policy_1\<lparr> updatedAt := Some 30 \<rparr>)]) \<and>
   fileClaim 30 ''policy-1'' (run [call_create, call_claim] insurancePolicyStorage)
     = (Err (already_filed_msg ''policy-1''), run [call_create, call_claim] insurancePolicyStorage)"
proof -
  let ?after = "[call_claim,
           (fst call_claim, UpdateInsurancePolicy ''policy-1'' (Object (payload_alice\<lparr>isClaimed := Some True\<rparr>))),
           (fst call_claim, GetAllInsurancePolicies)]"
  have h2: "store_get (run [call_create, call_claim] insurancePolicyStorage) ''policy-1''
              = Some (policy_1\<lparr> isClaimed := Some True, updatedAt := Some 20 \<rparr>)"
    by (simp add: run_create_claim)
  have h3: "isClaimed (policy_1\<lparr> isClaimed := Some True, updatedAt := Some 20 \<rparr>) = Some True"
    by simp
  have h4: "\<forall>c \<in> set ?after. keeps_claim ''policy-1'' c"
    by (simp add: keeps_claim_def call_claim_def payload_alice_def)
  have h5: "\<forall>field \<in> set requiredFields. field_in field payload_alice"
    by (simp add: requiredFields_def field_in_def payload_alice_def)
  have n: "\<not> keeps_claim ''policy-1''
     (fst call_claim, UpdateInsurancePolicy ''policy-1'' (Object payload_alice))"
    by (simp add: keeps_claim_def payload_alice_def)
  have ev: "run ?after (run [call_create, call_claim] insurancePolicyStorage)
              = [(''policy-1'', policy_1\<lparr> isClaimed := Some True, updatedAt := Some 20 \<rparr>)]"
    by (simp add: run_create_claim) (simp add: example_defs eval_defs)
  have ev2: "updateInsurancePolicy 30 ''policy-1'' (Object payload_alice)
       (run [call_create, call_claim] insurancePolicyStorage)
     = (Ok (policy_1\<lparr> updatedAt := Some 30 \<rparr>),
        [(''policy-1'', policy_1\<lparr> updatedAt := Some 30 \<rparr>)])"
    by (simp add: run_create_claim) (simp add: example_defs eval_defs)
  note inst = isClaimed_kept [OF refl h2 h3 h4, of payload_alice 30]
  have refused: "fileClaim 30 ''policy-1'' (run [call_create, call_claim] insurancePolicyStorage)
     = (Err (already_filed_msg ''policy-1''), run [call_create, call_claim] insurancePolicyStorage)"
    using inst by simp
  show ?thesis
    using inst h2 h4 h5 n ev ev2 refused
    by (simp add: requiredFields_def)
qed

text \<open>
  C2. The listing is claimed to succeed for every store and every caller and to return the
  caller's records. In src/index.ts the guard on the caller tests
  \<open>typeof currentUserId !== "string"\<close>, and \<open>ic.caller()\<close> is a \<open>Principal\<close> object:
  the guard holds for every caller, so for every store and every caller
  \<open>getAllInsurancePolicies\<close> returns the failure "Invalid current user ID." and never
  reaches its filter.
\<close>

theorem getAllInsurancePolicies_rejects_every_caller:
  "getAllInsurancePolicies caller st = Err ''Invalid current user ID.''"
  by (simp add: getAllInsurancePolicies_def typeof_Principal_def)

theorem getAllInsurancePolicies_rejects_alice:
  "store_get (run [call_create] insurancePolicyStorage) ''policy-1'' = Some policy_1 \<and>
   policyHolder policy_1 = Some alice \<and>
   getAllInsurancePolicies alice (run [call_create] insurancePolicyStorage)
     = Err ''Invalid current user ID.''"
  using getAllInsurancePolicies_rejects_every_caller
          [of alice "run [call_create] insurancePolicyStorage"]
  by (simp add: run_create) (simp add: policy_1_def)

text \<open>
  C3. In a store reached from the empty one, for a non-empty \<open>i\<close> that is present:
  \<open>fileClaim\<close> on a claimed record is refused with the "already been filed" message and
  the store is unchanged; on a record that is not claimed it returns the record with
  \<open>isClaimed\<close> true and \<open>updatedAt\<close> the current time, stores it under \<open>i\<close> and touches no
  other key; a second \<open>fileClaim\<close> at any later time is refused and leaves that store as it is.
\<close>

theorem fileClaim_once:
  assumes "store_get (run calls insurancePolicyStorage) i = Some r" and "i \<noteq> []"
  shows "(isClaimed r = Some True \<longrightarrow>
            fileClaim now i (run calls insurancePolicyStorage)
              = (Err (already_filed_msg i), run calls insurancePolicyStorage)) \<and>
         (isClaimed r \<noteq> Some True \<longrightarrow>
            (\<exists>st'. fileClaim now i (run calls insurancePolicyStorage)
                     = (Ok (r\<lparr> isClaimed := Some True, updatedAt := Some now \<rparr>), st') \<and>
                   store_get st' i = Some (r\<lparr> isClaimed := Some True, updatedAt := Some now \<rparr>) \<and>
                   (\<forall>k. k \<noteq> i \<longrightarrow> store_get st' k = store_get (run calls insurancePolicyStorage) k) \<and>
                   fileClaim now' i st' = (Err (already_filed_msg i), st')))"
proof -
  let ?st = "run calls insurancePolicyStorage"
  let ?r' = "r\<lparr> isClaimed := Some True, updatedAt := Some now \<rparr>"
  have inv: "key_inv ?st" by (rule run_key_inv [OF key_inv_empty])
  then have id: "id' r = i" using assms(1) by (rule key_inv_get)
  have claimed: "isClaimed r = Some True \<longrightarrow> fileClaim now i ?st = (Err (already_filed_msg i), ?st)"
    using assms by (simp add: fileClaim_claimed)
  have unclaimed: "fileClaim now i ?st = (Ok ?r', store_insert i ?r' ?st)"
    if "isClaimed r \<noteq> Some True"
    using assms that id fileClaim_unclaimed [of i ?st r now] by simp
  have get': "store_get (store_insert i ?r' ?st) i = Some ?r'"
    by (simp add: store_get_insert)
  have frame: "\<forall>k. k \<noteq> i \<longrightarrow> store_get (store_insert i ?r' ?st) k = store_get ?st k"
    by (simp add: store_get_insert)
  have again: "fileClaim now' i (store_insert i ?r' ?st) = (Err (already_filed_msg i), store_insert i ?r' ?st)"
    using assms(2) get' by (intro fileClaim_claimed [where r = ?r']) simp_all
  show ?thesis using claimed unclaimed get' frame again by blast
qed

theorem fileClaim_once_witness:
  "store_get (run [call_create] insurancePolicyStorage) ''policy-1'' = Some policy_1 \<and>
   ''policy-1'' \<noteq> [] \<and> isClaimed policy_1 \<noteq> Some True \<and>
   (\<exists>st'. fileClaim 20 ''policy-1'' (run [call_create] insurancePolicyStorage)
            = (Ok (policy_1\<lparr> isClaimed := Some True, updatedAt := Some 20 \<rparr>), st') \<and>
          store_get st' ''policy-1'' = Some (policy_1\<lparr> isClaimed := Some True, updatedAt := Some 20 \<rparr>) \<and>
          fileClaim 30 ''policy-1'' st' = (Err (already_filed_msg ''policy-1''), st')) \<and>
   store_get (run [call_create, call_claim] insurancePolicyStorage) ''policy-1''
     = Some (policy_1\<lparr> isClaimed := Some True, updatedAt := Some 20 \<rparr>) \<and>
   isClaimed (policy_1\<lparr> isClaimed := Some True, updatedAt := Some 20 \<rparr>) = Some True \<and>
   fileClaim 30 ''policy-1'' (run [call_create, call_claim] insurancePolicyStorage)
     = (Err (already_filed_msg ''policy-1''), run [call_create, call_claim] insurancePolicyStorage)"
proof -
  have h1: "store_get (run [call_create] insurancePolicyStorage) ''policy-1'' = Some policy_1"
    by (simp add: run_create)
  have h2: "store_get (run [call_create, call_claim] insurancePolicyStorage) ''policy-1''
              = Some (policy_1\<lparr> isClaimed := Some True, updatedAt := Some 20 \<rparr>)"
    by (simp add: run_create_claim)
  have h3: "''policy-1'' \<noteq> []" by simp
  have h4: "isClaimed policy_1 \<noteq> Some True" by (simp add: policy_1_def)
  show ?thesis
    using fileClaim_once [OF h1 h3, of 20 30] fileClaim_once [OF h2 h3, of 30 30] h1 h2 h4
    by auto
qed

text \<open>
  C4. In a store reached from the empty one by calls whose generated identifiers are
  non-empty and whose clock readings are not later than the current one, for every \<open>i\<close>
  that is present and every payload that supplies all six required fields:
  \<open>updateInsurancePolicy\<close> succeeds and returns the updated record, whose \<open>id\<close> and
  \<open>createdAt\<close> are those of the stored record whatever the payload holds, whose
  \<open>updatedAt\<close> is the current time, which is not earlier than the previous \<open>createdAt\<close>
  and \<open>updatedAt\<close>, and whose six payload fields are the payload's. The record is written
  under the same key \<open>i\<close>: the keys of the store and every other entry are unchanged.
\<close>

theorem updateInsurancePolicy_frame:
  assumes "st = run calls insurancePolicyStorage"
    and "\<forall>c \<in> set calls. uuidv4 (fst c) \<noteq> []"
    and "\<forall>c \<in> set calls. ic_time (fst c) \<le> now"
    and "store_get st i = Some r"
    and "\<forall>field \<in> set requiredFields. field_in field p"
  shows "\<exists>r'. updateInsurancePolicy now i (Object p) st = (Ok r', store_insert i r' st) \<and>
              id' r' = id' r \<and> createdAt r' = createdAt r \<and>
              updatedAt r' = Some now \<and>
              createdAt r \<le> now \<and> (\<forall>u. updatedAt r = Some u \<longrightarrow> u \<le> now) \<and>
              policyHolder r' = policyHolder p \<and> coverageAmount r' = coverageAmount p \<and>
              premiumAmount r' = premiumAmount p \<and> policyStartDate r' = policyStartDate p \<and>
              policyEndDate r' = policyEndDate p \<and> isClaimed r' = isClaimed p \<and>
              store_get (store_insert i r' st) i = Some r' \<and>
              (\<forall>k. k \<noteq> i \<longrightarrow> store_get (store_insert i r' st) k = store_get st k) \<and>
              map fst (store_insert i r' st) = map fst st"
proof -
  let ?r' = "r\<lparr> policyHolder := policyHolder p, coverageAmount := coverageAmount p,
                premiumAmount := premiumAmount p, policyStartDate := policyStartDate p,
                policyEndDate := policyEndDate p, isClaimed := isClaimed p,
                updatedAt := Some now \<rparr>"
  have nonempty: "i \<noteq> []"
    using assms(1,2,4) reachable_key_nonempty by blast
  have valid: "check_required requiredFields p = None"
    using assms(5) by (simp add: check_required_iff)
  have "key_inv st" unfolding assms(1) by (rule run_key_inv [OF key_inv_empty])
  then have id: "id' r = i" using assms(4) by (rule key_inv_get)
  have "times_le now st"
    unfolding assms(1) using assms(3)
    by (intro run_times_le) (simp_all add: times_le_def insurancePolicyStorage_def)
  then have times: "createdAt r \<le> now" "\<forall>u. updatedAt r = Some u \<longrightarrow> u \<le> now"
    using store_get_mem [OF assms(4)] by (auto simp: times_le_def split: option.splits)
  have upd: "updateInsurancePolicy now i (Object p) st = (Ok ?r', store_insert i ?r' st)"
    using updateInsurancePolicy_valid [OF nonempty valid assms(4), of now] id by simp
  have keys: "map fst (store_insert i ?r' st) = map fst st"
    using assms(4) by (simp add: keys_store_insert)
  show ?thesis
    using upd times keys by (intro exI [of _ ?r']) (simp add: store_get_insert)
qed

theorem updateInsurancePolicy_frame_witness:
  "[(''policy-1'', policy_1)] = run [call_create] insurancePolicyStorage \<and>
   uuidv4 (fst call_create) \<noteq> [] \<and> ic_time (fst call_create) \<le> 30 \<and>
   store_get [(''policy-1'', policy_1)] ''policy-1'' = Some policy_1 \<and>
   field_in ''policyHolder'' (payload_alice\<lparr>policyHolder := Some bob\<rparr>) \<and>
   updateInsurancePolicy 30 ''policy-1'' (Object (payload_alice\<lparr>policyHolder := Some bob\<rparr>))
       [(''policy-1'', policy_1)]
     = (Ok (policy_1\<lparr>policyHolder := Some bob, updatedAt := Some 30\<rparr>),
        [(''policy-1'', policy_1\<lparr>policyHolder := Some bob, updatedAt := Some 30\<rparr>)]) \<and>
   createdAt policy_1 \<le> 30"
proof -
  have h1: "[(''policy-1'', policy_1)] = run [call_create] insurancePolicyStorage"
    by (simp add: run_create)
  have h2: "\<forall>c \<in> set [call_create]. uuidv4 (fst c) \<noteq> []"
    by (simp add: call_create_def)
  have h3: "\<forall>c \<in> set [call_create]. ic_time (fst c) \<le> 30"
    by (simp add: call_create_def)
  have h4: "store_get [(''policy-1'', policy_1)] ''policy-1'' = Some policy_1"
    by simp
  have h5: "\<forall>field \<in> set requiredFields. field_in field (payload_alice\<lparr>policyHolder := Some bob\<rparr>)"
    by (simp add: requiredFields_def field_in_def payload_alice_def)
  show ?thesis
    using updateInsurancePolicy_frame [OF h1 h2 h3 h4 h5] h1 h2 h3 h4 h5
    by (auto simp: requiredFields_def policy_1_def payload_alice_def)
qed

text \<open>
  C5. For every payload that supplies all six required fields, with a generated identifier
  that is non-empty and not yet in the store: \<open>createInsurancePolicy\<close> succeeds, the
  record it returns has \<open>createdAt\<close> equal to the current time, no \<open>updatedAt\<close> and the
  payload's fields, the store has exactly one more entry, the record under the new key,
  with all other keys as before, and \<open>getInsurancePolicy\<close> on the record's \<open>id\<close> returns that record.
\<close>

theorem createInsurancePolicy_then_get:
  assumes "\<forall>field \<in> set requiredFields. field_in field p"
    and "uuid \<noteq> []" and "store_get st uuid = None"
  shows "\<exists>r st'. createInsurancePolicy uuid now (Object p) st = (Ok r, st') \<and>
                 id' r = uuid \<and> createdAt r = now \<and> updatedAt r = None \<and>
                 policyHolder r = policyHolder p \<and> coverageAmount r = coverageAmount p \<and>
                 premiumAmount r = premiumAmount p \<and> policyStartDate r = policyStartDate p \<and>
                 policyEndDate r = policyEndDate p \<and> isClaimed r = isClaimed p \<and>
                 length st' = Suc (length st) \<and>
                 store_get st' uuid = Some r \<and>
                 (\<forall>k. k \<noteq> uuid \<longrightarrow> store_get st' k = store_get st k) \<and>
                 getInsurancePolicy (id' r) st' = Ok r"
proof -
  have valid: "check_required requiredFields p = None"
    using assms(1) by (simp add: check_required_iff)
  show ?thesis
    using assms(2,3)
    by (simp add: createInsurancePolicy_valid [OF valid] store_get_insert
                  length_store_insert getInsurancePolicy_eq)
qed

theorem createInsurancePolicy_then_get_witness:
  "field_in ''isClaimed'' payload_alice \<and> ''policy-1'' \<noteq> [] \<and>
   store_get insurancePolicyStorage ''policy-1'' = None \<and>
   createInsurancePolicy ''policy-1'' 10 (Object payload_alice) insurancePolicyStorage
     = (Ok policy_1, [(''policy-1'', policy_1)]) \<and>
   getInsurancePolicy ''policy-1'' [(''policy-1'', policy_1)] = Ok policy_1 \<and>
   updatedAt policy_1 = None"
proof -
  have h1: "\<forall>field \<in> set requiredFields. field_in field payload_alice"
    by (simp add: requiredFields_def field_in_def payload_alice_def)
  have h2: "''policy-1'' \<noteq> []" by simp
  have h3: "store_get insurancePolicyStorage ''policy-1'' = None"
    by (simp add: insurancePolicyStorage_def)
  show ?thesis
    using createInsurancePolicy_then_get [OF h1 h2 h3, of 10] h1 h3
    by (simp add: example_defs eval_defs)
qed

text \<open>
  C6, as stated, fails at two inputs that are absent from the store. The empty identifier
  is refused by the identifier guard with "Invalid ID format." before any lookup; and
  \<open>updateInsurancePolicy\<close> validates its payload before it looks the identifier up, so an
  absent identifier with an incomplete payload gets the missing-field message.
\<close>

theorem not_found_needs_valid_arguments:
  "store_get insurancePolicyStorage [] = None \<and>
   getInsurancePolicy [] insurancePolicyStorage = Err ''Invalid ID format.'' \<and>
   getInsurancePolicy [] insurancePolicyStorage \<noteq> Err (not_found_msg []) \<and>
   store_get insurancePolicyStorage ''policy-1'' = None \<and>
   updateInsurancePolicy 10 ''policy-1'' (Object payload_incomplete) insurancePolicyStorage
     = (Err ''Missing required field: premiumAmount.'', insurancePolicyStorage) \<and>
   updateInsurancePolicy 10 ''policy-1'' (Object payload_incomplete) insurancePolicyStorage
     \<noteq> (Err (not_found_msg ''policy-1''), insurancePolicyStorage)"
  by (simp add: example_defs eval_defs)

text \<open>
  C6, amended. For every non-empty \<open>i\<close> that is not in the store, \<open>getInsurancePolicy\<close>,
  \<open>deleteInsurancePolicy\<close> and \<open>fileClaim\<close> return the not-found failure, and so does
  \<open>updateInsurancePolicy\<close> when its payload supplies all six required fields; the store is
  unchanged. With a payload that lacks a required field, \<open>updateInsurancePolicy\<close> on such
  an \<open>i\<close> fails with the missing-field message instead; and with the empty identifier each
  of the four fails with "Invalid ID format.", on every store. And for every call of any
  of the six operations on any store, a failure of whatever kind leaves the store exactly
  as it was.
\<close>

theorem absent_id_not_found:
  assumes "i \<noteq> []" and "store_get st i = None"
  shows "getInsurancePolicy i st = Err (not_found_msg i) \<and>
         deleteInsurancePolicy i st = (Err (not_found_msg i), st) \<and>
         fileClaim now i st = (Err (not_found_msg i), st) \<and>
         ((\<forall>field \<in> set requiredFields. field_in field p) \<longrightarrow>
            updateInsurancePolicy now i (Object p) st = (Err (not_found_msg i), st)) \<and>
         (\<forall>e op msg st'.
            fst (step e op st') = Policy (Err msg) \<or> fst (step e op st') = Policies (Err msg)
            \<longrightarrow> snd (step e op st') = st') \<and>
         ((\<exists>field \<in> set requiredFields. \<not> field_in field p) \<longrightarrow>
            (\<exists>g \<in> set requiredFields. \<not> field_in g p \<and>
               updateInsurancePolicy now i (Object p) st = (Err (missing_field_msg g), st))) \<and>
         (\<forall>now' payload st'.
            getInsurancePolicy [] st' = Err ''Invalid ID format.'' \<and>
            updateInsurancePolicy now' [] payload st' = (Err ''Invalid ID format.'', st') \<and>
            deleteInsurancePolicy [] st' = (Err ''Invalid ID format.'', st') \<and>
            fileClaim now' [] st' = (Err ''Invalid ID format.'', st'))"
proof -
  have absent: "getInsurancePolicy i st = Err (not_found_msg i)"
      "deleteInsurancePolicy i st = (Err (not_found_msg i), st)"
      "fileClaim now i st = (Err (not_found_msg i), st)"
    using assms by (simp_all add: getInsurancePolicy_eq deleteInsurancePolicy_eq fileClaim_absent)
  have update: "(\<forall>field \<in> set requiredFields. field_in field p) \<longrightarrow>
                  updateInsurancePolicy now i (Object p) st = (Err (not_found_msg i), st)"
    using assms by (simp add: updateInsurancePolicy_absent check_required_iff)
  have failures: "\<forall>e op msg st'.
            fst (step e op st') = Policy (Err msg) \<or> fst (step e op st') = Policies (Err msg)
            \<longrightarrow> snd (step e op st') = st'"
    using fst_step_Err_unchanged by blast
  have incomplete: "\<exists>g \<in> set requiredFields. \<not> field_in g p \<and>
               updateInsurancePolicy now i (Object p) st = (Err (missing_field_msg g), st)"
    if miss: "\<exists>field \<in> set requiredFields. \<not> field_in field p"
  proof -
    obtain before g after where split: "requiredFields = before @ g # after"
        and missing: "\<not> field_in g p"
        and check: "check_required requiredFields p = Some (missing_field_msg g)"
      using check_required_first_missing [OF miss] by blast
    have "g \<in> set (before @ g # after)" by simp
    then have "g \<in> set requiredFields" unfolding split .
    moreover have "updateInsurancePolicy now i (Object p) st = (Err (missing_field_msg g), st)"
      using assms(1) check by (rule updateInsurancePolicy_invalid)
    ultimately show ?thesis using missing by blast
  qed
  have empty: "\<forall>now' payload st'.
            getInsurancePolicy [] st' = Err ''Invalid ID format.'' \<and>
            updateInsurancePolicy now' [] payload st' = (Err ''Invalid ID format.'', st') \<and>
            deleteInsurancePolicy [] st' = (Err ''Invalid ID format.'', st') \<and>
            fileClaim now' [] st' = (Err ''Invalid ID format.'', st')"
    by (simp add: empty_id_rejected)
  show ?thesis using absent update failures incomplete empty by blast
qed

theorem absent_id_not_found_witness:
  "''policy-2'' \<noteq> [] \<and>
   store_get (run [call_create] insurancePolicyStorage) ''policy-2'' = None \<and>
   getInsurancePolicy ''policy-2'' (run [call_create] insurancePolicyStorage)
     = Err ''Insurance Policy with ID=policy-2 not found.'' \<and>
   deleteInsurancePolicy ''policy-2'' (run [call_create] insurancePolicyStorage)
     = (Err ''Insurance Policy with ID=policy-2 not found.'', [(''policy-1'', policy_1)]) \<and>
   fileClaim 20 ''policy-2'' (run [call_create] insurancePolicyStorage)
     = (Err ''Insurance Policy with ID=policy-2 not found.'', [(''policy-1'', policy_1)]) \<and>
   field_in ''policyHolder'' payload_alice \<and>
   updateInsurancePolicy 20 ''policy-2'' (Object payload_alice) (run [call_create] insurancePolicyStorage)
     = (Err ''Insurance Policy with ID=policy-2 not found.'', [(''policy-1'', policy_1)]) \<and>
   fst (step (fst call_claim) (FileClaim ''policy-1'') (run [call_create, call_claim] insurancePolicyStorage))
     = Policy (Err (already_filed_msg ''policy-1'')) \<and>
   snd (step (fst call_claim) (FileClaim ''policy-1'') (run [call_create, call_claim] insurancePolicyStorage))
     = run [call_create, call_claim] insurancePolicyStorage \<and>
   \<not> field_in ''premiumAmount'' payload_incomplete \<and>
   (\<exists>g \<in> set requiredFields. \<not> field_in g payload_incomplete \<and>
      updateInsurancePolicy 20 ''policy-2'' (Object payload_incomplete)
          (run [call_create] insurancePolicyStorage)
        = (Err (missing_field_msg g), run [call_create] insurancePolicyStorage)) \<and>
   updateInsurancePolicy 20 ''policy-2'' (Object payload_incomplete)
       (run [call_create] insurancePolicyStorage)
     = (Err ''Missing required field: premiumAmount.'', [(''policy-1'', policy_1)]) \<and>
   getInsurancePolicy [] (run [call_create] insurancePolicyStorage) = Err ''Invalid ID format.''"
proof -
  have h1: "''policy-2'' \<noteq> []" by simp
  have h2: "store_get (run [call_create] insurancePolicyStorage) ''policy-2'' = None"
    by (simp add: run_create)
  have h3: "\<forall>field \<in> set requiredFields. field_in field payload_alice"
    by (simp add: requiredFields_def field_in_def payload_alice_def)
  have h4: "fst (step (fst call_claim) (FileClaim ''policy-1'')
                  (run [call_create, call_claim] insurancePolicyStorage))
              = Policy (Err (already_filed_msg ''policy-1''))"
    by (simp add: run_create_claim) (simp add: eval_defs call_claim_def)
  have h5: "\<not> field_in ''premiumAmount'' payload_incomplete"
    by (simp add: field_in_def payload_incomplete_def)
  have h6: "\<exists>field \<in> set requiredFields. \<not> field_in field payload_incomplete"
    using h5 by (auto simp: requiredFields_def)
  note inst = absent_id_not_found [OF h1 h2, of 20 payload_alice]
  note inst' = absent_id_not_found [OF h1 h2, of 20 payload_incomplete]
  have found: "getInsurancePolicy ''policy-2'' (run [call_create] insurancePolicyStorage)
                 = Err ''Insurance Policy with ID=policy-2 not found.''"
      "deleteInsurancePolicy ''policy-2'' (run [call_create] insurancePolicyStorage)
         = (Err ''Insurance Policy with ID=policy-2 not found.'', [(''policy-1'', policy_1)])"
      "fileClaim 20 ''policy-2'' (run [call_create] insurancePolicyStorage)
         = (Err ''Insurance Policy with ID=policy-2 not found.'', [(''policy-1'', policy_1)])"
      "updateInsurancePolicy 20 ''policy-2'' (Object payload_alice) (run [call_create] insurancePolicyStorage)
         = (Err ''Insurance Policy with ID=policy-2 not found.'', [(''policy-1'', policy_1)])"
    using inst h3 by (simp_all add: run_create not_found_msg_def)
  have unchanged:
    "snd (step (fst call_claim) (FileClaim ''policy-1'') (run [call_create, call_claim] insurancePolicyStorage))
       = run [call_create, call_claim] insurancePolicyStorage"
    using inst h4 by blast
  have incomplete: "\<exists>g \<in> set requiredFields. \<not> field_in g payload_incomplete \<and>
      updateInsurancePolicy 20 ''policy-2'' (Object payload_incomplete)
          (run [call_create] insurancePolicyStorage)
        = (Err (missing_field_msg g), run [call_create] insurancePolicyStorage)"
    using inst' h6 by blast
  have named: "updateInsurancePolicy 20 ''policy-2'' (Object payload_incomplete)
       (run [call_create] insurancePolicyStorage)
     = (Err ''Missing required field: premiumAmount.'', [(''policy-1'', policy_1)])"
    by (simp add: run_create) (simp add: example_defs eval_defs)
  have empty: "getInsurancePolicy [] (run [call_create] insurancePolicyStorage)
                 = Err ''Invalid ID format.''"
    using inst by blast
  have h3': "field_in ''policyHolder'' payload_alice"
    using h3 by (simp add: requiredFields_def)
  show ?thesis
    using h1 h2 found h3' h4 unchanged h5 incomplete named empty by blast
qed

text \<open>
  C7, as stated, fails for \<open>updateInsurancePolicy\<close> with the empty identifier: the
  identifier guard comes first, and its message "Invalid ID format." names no field of the
  incomplete payload.
\<close>

theorem update_empty_id_names_no_field:
  "\<not> field_in ''premiumAmount'' payload_incomplete \<and>
   \<not> field_in ''isClaimed'' payload_incomplete \<and>
   field_in ''policyHolder'' payload_incomplete \<and>
   field_in ''coverageAmount'' payload_incomplete \<and>
   field_in ''policyStartDate'' payload_incomplete \<and>
   field_in ''policyEndDate'' payload_incomplete \<and>
   updateInsurancePolicy 10 [] (Object payload_incomplete) insurancePolicyStorage
     = (Err ''Invalid ID format.'', insurancePolicyStorage) \<and>
   ''Invalid ID format.'' \<noteq> missing_field_msg ''premiumAmount'' \<and>
   ''Invalid ID format.'' \<noteq> missing_field_msg ''isClaimed''"
  by (simp add: example_defs eval_defs)

text \<open>
  C7, amended. For every payload object that lacks at least one required field,
  \<open>createInsurancePolicy\<close>, and \<open>updateInsurancePolicy\<close> called with a non-empty
  identifier, fail with "Missing required field: g." where \<open>g\<close> is the first field, in the
  order of \<open>requiredFields\<close>, that the payload lacks (every required field before \<open>g\<close> is
  present), and leave the store unchanged. Called with the empty identifier,
  \<open>updateInsurancePolicy\<close> fails with "Invalid ID format." instead, and also leaves the
  store unchanged.
\<close>

theorem missing_field_rejected:
  assumes "f \<in> set requiredFields" and "\<not> field_in f p"
  shows "\<exists>before g after.
           requiredFields = before @ g # after \<and>
           (\<forall>h \<in> set before. field_in h p) \<and> \<not> field_in g p \<and>
           createInsurancePolicy uuid now (Object p) st = (Err (missing_field_msg g), st) \<and>
           (i \<noteq> [] \<longrightarrow>
              updateInsurancePolicy now i (Object p) st = (Err (missing_field_msg g), st)) \<and>
           updateInsurancePolicy now [] (Object p) st = (Err ''Invalid ID format.'', st)"
proof -
  have "\<exists>g \<in> set requiredFields. \<not> field_in g p"
    using assms by blast
  then obtain before g after where split: "requiredFields = before @ g # after"
      and present: "\<forall>h \<in> set before. field_in h p" and missing: "\<not> field_in g p"
      and check: "check_required requiredFields p = Some (missing_field_msg g)"
    using check_required_first_missing by blast
  have create: "createInsurancePolicy uuid now (Object p) st = (Err (missing_field_msg g), st)"
    using check by (rule createInsurancePolicy_invalid)
  have update: "i \<noteq> [] \<longrightarrow>
      updateInsurancePolicy now i (Object p) st = (Err (missing_field_msg g), st)"
    using check by (simp add: updateInsurancePolicy_invalid)
  have empty: "updateInsurancePolicy now [] (Object p) st = (Err ''Invalid ID format.'', st)"
    by (rule empty_id_rejected)
  show ?thesis using split present missing create update empty by blast
qed

theorem missing_field_rejected_witness:
  "''isClaimed'' \<in> set requiredFields \<and> \<not> field_in ''isClaimed'' payload_incomplete \<and>
   requiredFields = [''policyHolder'', ''coverageAmount''] @ ''premiumAmount''
                      # [''policyStartDate'', ''policyEndDate'', ''isClaimed''] \<and>
   field_in ''policyHolder'' payload_incomplete \<and>
   field_in ''coverageAmount'' payload_incomplete \<and>
   \<not> field_in ''premiumAmount'' payload_incomplete \<and>
   ''policy-1'' \<noteq> [] \<and>
   createInsurancePolicy ''policy-2'' 10 (Object payload_incomplete) [(''policy-1'', policy_1)]
     = (Err ''Missing required field: premiumAmount.'', [(''policy-1'', policy_1)]) \<and>
   updateInsurancePolicy 10 ''policy-1'' (Object payload_incomplete) [(''policy-1'', policy_1)]
     = (Err ''Missing required field: premiumAmount.'', [(''policy-1'', policy_1)]) \<and>
   updateInsurancePolicy 10 [] (Object payload_incomplete) [(''policy-1'', policy_1)]
     = (Err ''Invalid ID format.'', [(''policy-1'', policy_1)]) \<and>
   (\<exists>before g after.
      requiredFields = before @ g # after \<and>
      (\<forall>h \<in> set before. field_in h payload_incomplete) \<and> \<not> field_in g payload_incomplete \<and>
      createInsurancePolicy ''policy-2'' 10 (Object payload_incomplete) [(''policy-1'', policy_1)]
        = (Err (missing_field_msg g), [(''policy-1'', policy_1)]))"
proof -
  have h1: "''isClaimed'' \<in> set requiredFields" by (simp add: requiredFields_def)
  have h2: "\<not> field_in ''isClaimed'' payload_incomplete"
    by (simp add: field_in_def payload_incomplete_def)
  have ev: "check_required requiredFields payload_incomplete
              = Some ''Missing required field: premiumAmount.''"
    by (simp add: example_defs eval_defs)
  have fields: "requiredFields = [''policyHolder'', ''coverageAmount''] @ ''premiumAmount''
                      # [''policyStartDate'', ''policyEndDate'', ''isClaimed'']"
      "field_in ''policyHolder'' payload_incomplete"
      "field_in ''coverageAmount'' payload_incomplete"
      "\<not> field_in ''premiumAmount'' payload_incomplete"
    by (simp_all add: requiredFields_def field_in_def payload_incomplete_def payload_alice_def)
  have results:
      "createInsurancePolicy ''policy-2'' 10 (Object payload_incomplete) [(''policy-1'', policy_1)]
         = (Err ''Missing required field: premiumAmount.'', [(''policy-1'', policy_1)])"
      "updateInsurancePolicy 10 ''policy-1'' (Object payload_incomplete) [(''policy-1'', policy_1)]
         = (Err ''Missing required field: premiumAmount.'', [(''policy-1'', policy_1)])"
      "updateInsurancePolicy 10 [] (Object payload_incomplete) [(''policy-1'', policy_1)]
         = (Err ''Invalid ID format.'', [(''policy-1'', policy_1)])"
    by (simp_all add: createInsurancePolicy_invalid [OF ev] updateInsurancePolicy_invalid [OF _ ev]
                      empty_id_rejected)
  have inst: "\<exists>before g after.
      requiredFields = before @ g # after \<and>
      (\<forall>h \<in> set before. field_in h payload_incomplete) \<and> \<not> field_in g payload_incomplete \<and>
      createInsurancePolicy ''policy-2'' 10 (Object payload_incomplete) [(''policy-1'', policy_1)]
        = (Err (missing_field_msg g), [(''policy-1'', policy_1)])"
    using missing_field_rejected [OF h1 h2, of "''policy-2''" 10 "[(''policy-1'', policy_1)]" "''policy-1''"]
    by blast
  show ?thesis
    using h1 h2 fields results inst by blast
qed

text \<open>
  C8. In a store reached from the empty one by calls whose generated identifiers are
  non-empty, for every \<open>i\<close> that is present: \<open>deleteInsurancePolicy\<close> returns the record
  as it was stored, removes the entry and no other, and \<open>getInsurancePolicy\<close> on \<open>i\<close>
  afterwards is the not-found failure.
\<close>

theorem deleteInsurancePolicy_removes:
  assumes "st = run calls insurancePolicyStorage"
    and "\<forall>c \<in> set calls. uuidv4 (fst c) \<noteq> []"
    and "store_get st i = Some r"
  shows "deleteInsurancePolicy i st = (Ok r, store_remove i st) \<and>
         store_get (store_remove i st) i = None \<and>
         (\<forall>k. k \<noteq> i \<longrightarrow> store_get (store_remove i st) k = store_get st k) \<and>
         getInsurancePolicy i (store_remove i st) = Err (not_found_msg i)"
proof -
  have nonempty: "i \<noteq> []"
    using assms reachable_key_nonempty by blast
  then show ?thesis
    using assms(3) by (simp add: deleteInsurancePolicy_eq getInsurancePolicy_eq store_get_remove)
qed

theorem deleteInsurancePolicy_removes_witness:
  "uuidv4 (fst call_create) \<noteq> [] \<and>
   store_get (run [call_create] insurancePolicyStorage) ''policy-1'' = Some policy_1 \<and>
   deleteInsurancePolicy ''policy-1'' (run [call_create] insurancePolicyStorage)
     = (Ok policy_1, []) \<and>
   getInsurancePolicy ''policy-1''
       (snd (deleteInsurancePolicy ''policy-1'' (run [call_create] insurancePolicyStorage)))
     = Err (not_found_msg ''policy-1'')"
proof -
  have h2: "\<forall>c \<in> set [call_create]. uuidv4 (fst c) \<noteq> []"
    by (simp add: call_create_def)
  have h3: "store_get (run [call_create] insurancePolicyStorage) ''policy-1'' = Some policy_1"
    by (simp add: run_create)
  show ?thesis
    using deleteInsurancePolicy_removes [OF refl h2 h3] h2 h3 by (simp add: run_create)
qed

text \<open>
  C9. With the same store, clock reading and generated identifier, create, get, update,
  delete and \<open>fileClaim\<close> return the same result and leave the same store for any two
  callers \<open>c\<close> and \<open>c'\<close>. In particular create stores the \<open>policyHolder\<close> of the payload,
  whoever calls; and on a present, non-empty identifier delete succeeds, update succeeds
  with a complete payload, and \<open>fileClaim\<close> succeeds on a record that is not claimed,
  for every caller and every \<open>policyHolder\<close> of the record.
\<close>

theorem caller_is_not_consulted:
  "step (e\<lparr>ic_caller := c\<rparr>) (CreateInsurancePolicy payload) st
     = step (e\<lparr>ic_caller := c'\<rparr>) (CreateInsurancePolicy payload) st \<and>
   step (e\<lparr>ic_caller := c\<rparr>) (GetInsurancePolicy i) st
     = step (e\<lparr>ic_caller := c'\<rparr>) (GetInsurancePolicy i) st \<and>
   step (e\<lparr>ic_caller := c\<rparr>) (UpdateInsurancePolicy i payload) st
     = step (e\<lparr>ic_caller := c'\<rparr>) (UpdateInsurancePolicy i payload) st \<and>
   step (e\<lparr>ic_caller := c\<rparr>) (DeleteInsurancePolicy i) st
     = step (e\<lparr>ic_caller := c'\<rparr>) (DeleteInsurancePolicy i) st \<and>
   step (e\<lparr>ic_caller := c\<rparr>) (FileClaim i) st
     = step (e\<lparr>ic_caller := c'\<rparr>) (FileClaim i) st \<and>
   ((\<forall>field \<in> set requiredFields. field_in field p) \<longrightarrow>
      (\<exists>r' st'. step e (CreateInsurancePolicy (Object p)) st = (Policy (Ok r'), st') \<and>
                policyHolder r' = policyHolder p \<and>
                store_get st' (uuidv4 e) = Some r')) \<and>
   (i \<noteq> [] \<and> store_get st i = Some r \<longrightarrow>
      (\<exists>st'. step e (DeleteInsurancePolicy i) st = (Policy (Ok r), st')) \<and>
      ((\<forall>field \<in> set requiredFields. field_in field p) \<longrightarrow>
         (\<exists>r' st'. step e (UpdateInsurancePolicy i (Object p)) st = (Policy (Ok r'), st'))) \<and>
      (isClaimed r \<noteq> Some True \<longrightarrow>
         (\<exists>r' st'. step e (FileClaim i) st = (Policy (Ok r'), st'))))"
proof -
  have same: "step (e\<lparr>ic_caller := c\<rparr>) (CreateInsurancePolicy payload) st
                = step (e\<lparr>ic_caller := c'\<rparr>) (CreateInsurancePolicy payload) st"
      "step (e\<lparr>ic_caller := c\<rparr>) (GetInsurancePolicy i) st
                = step (e\<lparr>ic_caller := c'\<rparr>) (GetInsurancePolicy i) st"
      "step (e\<lparr>ic_caller := c\<rparr>) (UpdateInsurancePolicy i payload) st
                = step (e\<lparr>ic_caller := c'\<rparr>) (UpdateInsurancePolicy i payload) st"
      "step (e\<lparr>ic_caller := c\<rparr>) (DeleteInsurancePolicy i) st
                = step (e\<lparr>ic_caller := c'\<rparr>) (DeleteInsurancePolicy i) st"
      "step (e\<lparr>ic_caller := c\<rparr>) (FileClaim i) st
                = step (e\<lparr>ic_caller := c'\<rparr>) (FileClaim i) st"
    by simp_all
  have create: "\<exists>r' st'. step e (CreateInsurancePolicy (Object p)) st = (Policy (Ok r'), st') \<and>
                policyHolder r' = policyHolder p \<and> store_get st' (uuidv4 e) = Some r'"
    if "\<forall>field \<in> set requiredFields. field_in field p"
  proof -
    have "check_required requiredFields p = None"
      using that by (simp add: check_required_iff)
    then show ?thesis
      by (simp add: createInsurancePolicy_valid store_get_insert)
  qed
  have delete: "\<exists>st'. step e (DeleteInsurancePolicy i) st = (Policy (Ok r), st')"
    if "i \<noteq> []" "store_get st i = Some r"
    using that by (simp add: deleteInsurancePolicy_eq)
  have update: "\<exists>r' st'. step e (UpdateInsurancePolicy i (Object p)) st = (Policy (Ok r'), st')"
    if "i \<noteq> []" "store_get st i = Some r" "\<forall>field \<in> set requiredFields. field_in field p"
  proof -
    have "check_required requiredFields p = None"
      using that(3) by (simp add: check_required_iff)
    then show ?thesis
      using that(1,2) by (simp add: updateInsurancePolicy_valid)
  qed
  have claim: "\<exists>r' st'. step e (FileClaim i) st = (Policy (Ok r'), st')"
    if "i \<noteq> []" "store_get st i = Some r" "isClaimed r \<noteq> Some True"
    using that by (simp add: fileClaim_unclaimed)
  show ?thesis using same create delete update claim by blast
qed

theorem caller_is_not_consulted_witness:
  "step \<lparr>ic_caller = alice, ic_time = 20, uuidv4 = ''policy-2''\<rparr> (FileClaim ''policy-1'')
        [(''policy-1'', policy_1)]
     = step \<lparr>ic_caller = bob, ic_time = 20, uuidv4 = ''policy-2''\<rparr> (FileClaim ''policy-1'')
        [(''policy-1'', policy_1)] \<and>
   field_in ''policyHolder'' payload_alice \<and> policyHolder payload_alice = Some alice \<and>
   alice \<noteq> bob \<and>
   (\<exists>r' st'. step \<lparr>ic_caller = bob, ic_time = 20, uuidv4 = ''policy-2''\<rparr>
                  (CreateInsurancePolicy (Object payload_alice)) [(''policy-1'', policy_1)]
                = (Policy (Ok r'), st') \<and>
              policyHolder r' = Some alice \<and> store_get st' ''policy-2'' = Some r') \<and>
   ''policy-1'' \<noteq> [] \<and>
   store_get [(''policy-1'', policy_1)] ''policy-1'' = Some policy_1 \<and>
   policyHolder policy_1 \<noteq> Some bob \<and> isClaimed policy_1 \<noteq> Some True \<and>
   (\<exists>st'. step \<lparr>ic_caller = bob, ic_time = 20, uuidv4 = ''policy-2''\<rparr>
               (DeleteInsurancePolicy ''policy-1'') [(''policy-1'', policy_1)]
             = (Policy (Ok policy_1), st')) \<and>
   (\<exists>r' st'. step \<lparr>ic_caller = bob, ic_time = 20, uuidv4 = ''policy-2''\<rparr>
                  (UpdateInsurancePolicy ''policy-1'' (Object payload_alice)) [(''policy-1'', policy_1)]
                = (Policy (Ok r'), st')) \<and>
   (\<exists>r' st'. step \<lparr>ic_caller = bob, ic_time = 20, uuidv4 = ''policy-2''\<rparr>
                  (FileClaim ''policy-1'') [(''policy-1'', policy_1)]
                = (Policy (Ok r'), st'))"
proof -
  let ?e = "\<lparr>ic_caller = bob, ic_time = 20, uuidv4 = ''policy-2''\<rparr>"
  have h1: "\<forall>field \<in> set requiredFields. field_in field payload_alice"
    by (simp add: requiredFields_def field_in_def payload_alice_def)
  have h2: "''policy-1'' \<noteq> [] \<and> store_get [(''policy-1'', policy_1)] ''policy-1'' = Some policy_1"
    by simp
  have h3: "isClaimed policy_1 \<noteq> Some True" "policyHolder policy_1 \<noteq> Some bob" "alice \<noteq> bob"
      "policyHolder payload_alice = Some alice"
    by (simp_all add: policy_1_def payload_alice_def alice_def bob_def)
  note inst = caller_is_not_consulted
      [where e = ?e and c = alice and c' = bob and st = "[(''policy-1'', policy_1)]"
         and i = "''policy-1''" and p = payload_alice and r = policy_1]
  have same: "step \<lparr>ic_caller = alice, ic_time = 20, uuidv4 = ''policy-2''\<rparr> (FileClaim ''policy-1'')
        [(''policy-1'', policy_1)]
     = step ?e (FileClaim ''policy-1'') [(''policy-1'', policy_1)]"
    using inst by simp
  have create: "\<exists>r' st'. step ?e (CreateInsurancePolicy (Object payload_alice)) [(''policy-1'', policy_1)]
                = (Policy (Ok r'), st') \<and>
              policyHolder r' = Some alice \<and> store_get st' ''policy-2'' = Some r'"
    using inst h1 h3(4) by (simp del: step.simps)
  have delete: "\<exists>st'. step ?e (DeleteInsurancePolicy ''policy-1'') [(''policy-1'', policy_1)]
             = (Policy (Ok policy_1), st')"
    using inst h2 by blast
  have update: "\<exists>r' st'. step ?e (UpdateInsurancePolicy ''policy-1'' (Object payload_alice))
                  [(''policy-1'', policy_1)] = (Policy (Ok r'), st')"
    using inst h1 h2 by blast
  have claim: "\<exists>r' st'. step ?e (FileClaim ''policy-1'') [(''policy-1'', policy_1)]
                = (Policy (Ok r'), st')"
    using inst h2 h3(1) by blast
  show ?thesis
    using same create delete update claim h1 h2 h3
    by (simp add: requiredFields_def del: step.simps)
qed

text \<open>
  C10. In every store reached from the empty one by calls of the six operations, a record
  found under the key \<open>k\<close> has \<open>id\<close> equal to \<open>k\<close>. Whenever create, update or
  \<open>fileClaim\<close> succeeds, the store it leaves is the old one with the returned record
  inserted under that record's own \<open>id\<close>; and each of them, as every call, preserves
  the property that all entries are stored under their record's \<open>id\<close>.
\<close>

theorem stored_under_own_id:
  "(store_get (run calls insurancePolicyStorage) k = Some r \<longrightarrow> id' r = k) \<and>
   (createInsurancePolicy uuid now payload st = (Ok r1, st1) \<longrightarrow> st1 = store_insert (id' r1) r1 st) \<and>
   (updateInsurancePolicy now i payload st = (Ok r2, st2) \<longrightarrow> st2 = store_insert (id' r2) r2 st) \<and>
   (fileClaim now i st = (Ok r3, st3) \<longrightarrow> st3 = store_insert (id' r3) r3 st) \<and>
   (key_inv st \<longrightarrow>
      key_inv (snd (createInsurancePolicy uuid now payload st)) \<and>
      key_inv (snd (updateInsurancePolicy now i payload st)) \<and>
      key_inv (snd (fileClaim now i st)) \<and>
      key_inv (snd (step e op st)))"
proof -
  have reach: "store_get (run calls insurancePolicyStorage) k = Some r \<longrightarrow> id' r = k"
    using key_inv_get [OF run_key_inv [OF key_inv_empty]] by blast
  have create: "createInsurancePolicy uuid now payload st = (Ok r1, st1) \<longrightarrow>
                  st1 = store_insert (id' r1) r1 st"
    by (auto simp: createInsurancePolicy_def Let_def split: payload_value.splits option.splits)
  have update: "updateInsurancePolicy now i payload st = (Ok r2, st2) \<longrightarrow>
                  st2 = store_insert (id' r2) r2 st"
    by (auto simp: updateInsurancePolicy_def Let_def
             split: payload_value.splits option.splits if_splits)
  have claim: "fileClaim now i st = (Ok r3, st3) \<longrightarrow> st3 = store_insert (id' r3) r3 st"
    by (auto simp: fileClaim_def Let_def split: option.splits if_splits)
  have pres: "key_inv (snd (createInsurancePolicy uuid now payload st)) \<and>
      key_inv (snd (updateInsurancePolicy now i payload st)) \<and>
      key_inv (snd (fileClaim now i st)) \<and>
      key_inv (snd (step e op st))" if inv: "key_inv st"
    using step_key_inv [OF inv, of "\<lparr>ic_caller = ic_caller e, ic_time = now, uuidv4 = uuid\<rparr>"
                                   "CreateInsurancePolicy payload"]
      step_key_inv [OF inv, of "\<lparr>ic_caller = ic_caller e, ic_time = now, uuidv4 = uuid\<rparr>"
                                   "UpdateInsurancePolicy i payload"]
      step_key_inv [OF inv, of "\<lparr>ic_caller = ic_caller e, ic_time = now, uuidv4 = uuid\<rparr>"
                                   "FileClaim i"]
      step_key_inv [OF inv, of e op]
    by (simp add: snd_step del: step.simps)
  show ?thesis using reach create update claim pres by blast
qed

theorem stored_under_own_id_witness:
  "store_get (run [call_create, call_claim] insurancePolicyStorage) ''policy-1''
     = Some (policy_1\<lparr> isClaimed := Some True, updatedAt := Some 20 \<rparr>) \<and>
   id' (policy_1\<lparr> isClaimed := Some True, updatedAt := Some 20 \<rparr>) = ''policy-1'' \<and>
   createInsurancePolicy ''policy-1'' 10 (Object payload_alice) insurancePolicyStorage
     = (Ok policy_1, [(''policy-1'', policy_1)]) \<and>
   [(''policy-1'', policy_1)] = store_insert (id' policy_1) policy_1 insurancePolicyStorage \<and>
   key_inv [(''policy-1'', policy_1)] \<and>
   key_inv (snd (fileClaim 20 ''policy-1'' [(''policy-1'', policy_1)])) \<and>
   key_inv (snd (updateInsurancePolicy 30 ''policy-1'' (Object payload_alice) [(''policy-1'', policy_1)]))"
proof -
  have h1: "store_get (run [call_create, call_claim] insurancePolicyStorage) ''policy-1''
              = Some (policy_1\<lparr> isClaimed := Some True, updatedAt := Some 20 \<rparr>)"
    by (simp add: run_create_claim)
  have h2: "createInsurancePolicy ''policy-1'' 10 (Object payload_alice) insurancePolicyStorage
              = (Ok policy_1, [(''policy-1'', policy_1)])"
    by (simp add: example_defs eval_defs)
  have h3: "key_inv [(''policy-1'', policy_1)]"
    by (simp add: key_inv_def policy_1_def)
  note inst1 = stored_under_own_id
      [of "[call_create, call_claim]" "''policy-1''"
          "policy_1\<lparr> isClaimed := Some True, updatedAt := Some 20 \<rparr>"
          "''policy-1''" 10 "Object payload_alice" insurancePolicyStorage policy_1
          "[(''policy-1'', policy_1)]"]
  note inst2 = stored_under_own_id [where st = "[(''policy-1'', policy_1)]" and i = "''policy-1''"
      and payload = "Object payload_alice"]
  have a: "id' (policy_1\<lparr> isClaimed := Some True, updatedAt := Some 20 \<rparr>) = ''policy-1''"
    using inst1 h1 by blast
  have b: "[(''policy-1'', policy_1)] = store_insert (id' policy_1) policy_1 insurancePolicyStorage"
    using inst1 h2 by blast
  have c: "key_inv (snd (fileClaim 20 ''policy-1'' [(''policy-1'', policy_1)]))"
    using inst2 [of _ _ _ _ 20] h3 by blast
  have d: "key_inv (snd (updateInsurancePolicy 30 ''policy-1'' (Object payload_alice) [(''policy-1'', policy_1)]))"
    using inst2 [of _ _ _ _ 30] h3 by blast
  show ?thesis using h1 a h2 b h3 c d by blast
qed

end
